theory Spec2Isabelle
  imports Complex_Main "HOL-Library.Sublist"
begin

section \<open>Python values\<close>

text \<open>
  A Python \<open>str\<close> is a sequence of Unicode code points and \<open>len\<close> counts code points,
  so a string is a list of code points here. \<open>py\<close> turns an ASCII literal into one.
\<close>

type_synonym pystr = "nat list"

definition py :: "string \<Rightarrow> pystr" where
  "py s = map of_char s"

text \<open>
  The characters \<open>str.split()\<close> and \<open>str.strip()\<close> treat as whitespace: the code
  points for which \<open>str.isspace\<close> holds.
\<close>

definition is_space :: "nat \<Rightarrow> bool" where
  "is_space c =
     ((9 \<le> c \<and> c \<le> 13) \<or> (28 \<le> c \<and> c \<le> 32) \<or> c = 133 \<or> c = 160 \<or> c = 5760 \<or>
      (8192 \<le> c \<and> c \<le> 8202) \<or> c = 8232 \<or> c = 8233 \<or> c = 8239 \<or> c = 8287 \<or>
      c = 12288)"

text \<open>
  \<open>s.split()\<close>: the maximal runs of non-whitespace characters, in order. The first
  argument is the word being read.
\<close>

fun split_from :: "pystr \<Rightarrow> pystr \<Rightarrow> pystr list" where
  "split_from cur [] = (if cur = [] then [] else [cur])"
| "split_from cur (c # cs) =
     (if is_space c then (if cur = [] then split_from [] cs else cur # split_from [] cs)
      else split_from (cur @ [c]) cs)"

definition split_ws :: "pystr \<Rightarrow> pystr list" where
  "split_ws s = split_from [] s"

text \<open>\<open>sep.join(xs)\<close>.\<close>

fun join :: "pystr \<Rightarrow> pystr list \<Rightarrow> pystr" where
  "join sep [] = []"
| "join sep [x] = x"
| "join sep (x # y # ys) = x @ sep @ join sep (y # ys)"

text \<open>\<open>s.strip()\<close>: leading and trailing whitespace removed.\<close>

definition strip :: "pystr \<Rightarrow> pystr" where
  "strip s = rev (dropWhile is_space (rev (dropWhile is_space s)))"

section \<open>The summary's word wrap\<close>

text \<open>
  Lines 95 to 102 of \<open>create_infographic_pdf\<close>: the loop's state is the line buffer
  \<open>line\<close> and the lines already handed to \<open>text_object.textLine\<close>. The source's
  threshold is the constant 80; the loop is written for any threshold.
\<close>

record wrap_state =
  line :: "pystr list"
  emitted :: "pystr list"

definition wrap_step :: "nat \<Rightarrow> wrap_state \<Rightarrow> pystr \<Rightarrow> wrap_state" where
  "wrap_step thr st word =
     (let line' = line st @ [word] in
      if length (join (py '' '') line') > thr
      then \<lparr>line = [], emitted = emitted st @ [join (py '' '') line']\<rparr>
      else \<lparr>line = line', emitted = emitted st\<rparr>)"

definition run_wrap :: "nat \<Rightarrow> pystr list \<Rightarrow> wrap_state" where
  "run_wrap thr words = foldl (wrap_step thr) \<lparr>line = [], emitted = []\<rparr> words"

definition wrap_words :: "nat \<Rightarrow> pystr list \<Rightarrow> pystr list" where
  "wrap_words thr words =
     (let st = run_wrap thr words
      in emitted st @ [join (py '' '') (line st)])"

text \<open>The test of line 99 succeeds at the last word of the summary.\<close>

definition last_word_flushes :: "nat \<Rightarrow> pystr list \<Rightarrow> bool" where
  "last_word_flushes thr words =
     (words \<noteq> [] \<and>
      thr < length (join (py '' '') (line (run_wrap thr (butlast words)) @ [last words])))"

definition threshold :: nat where
  "threshold = 80"

text \<open>
  The procedure of the specification, in its own words: each word is appended to the
  buffer; when the joined buffer is longer than the threshold it is flushed as a line
  and a new buffer starts; the buffer left at the end is flushed as the last line.
  \<open>spec_wrap\<close> gives the lines, \<open>wrap_groups\<close> the words of each line.
\<close>

fun spec_wrap :: "nat \<Rightarrow> pystr list \<Rightarrow> pystr list \<Rightarrow> pystr list" where
  "spec_wrap thr buf [] = [join (py '' '') buf]"
| "spec_wrap thr buf (w # ws) =
     (if thr < length (join (py '' '') (buf @ [w]))
      then join (py '' '') (buf @ [w]) # spec_wrap thr [] ws
      else spec_wrap thr (buf @ [w]) ws)"

fun wrap_groups :: "nat \<Rightarrow> pystr list \<Rightarrow> pystr list \<Rightarrow> pystr list list" where
  "wrap_groups thr buf [] = [buf]"
| "wrap_groups thr buf (w # ws) =
     (if thr < length (join (py '' '') (buf @ [w]))
      then (buf @ [w]) # wrap_groups thr [] ws
      else wrap_groups thr (buf @ [w]) ws)"

text \<open>A word as \<open>split()\<close> returns it: not empty, no whitespace in it.\<close>

definition good_word :: "pystr \<Rightarrow> bool" where
  "good_word w = (w \<noteq> [] \<and> list_all (\<lambda>c. \<not> is_space c) w)"

definition space_led :: "pystr \<Rightarrow> bool" where
  "space_led rest = (case rest of [] \<Rightarrow> True | c # _ \<Rightarrow> is_space c)"

section \<open>Records as parsed JSON\<close>

text \<open>
  What \<open>json.loads\<close> returns. A float is carried by the number it stands for; no
  drawing depends on it. A dict is the list of its items, looked up by key.
\<close>

datatype pyfloat = Finite rat | NaN | PosInf | NegInf

datatype json =
    JNull
  | JBool bool
  | JInt int
  | JFloat pyfloat
  | JStr pystr
  | JArr "json list"
  | JObj "(pystr \<times> json) list"

datatype error =
    AttributeError
  | TypeError
  | IndexError
  | ValueError
  | OSError
  | JSONDecodeError
  | UpstreamError nat

definition and_then :: "error + 'a \<Rightarrow> ('a \<Rightarrow> error + 'b) \<Rightarrow> error + 'b" where
  "and_then m f = (case m of Inl e \<Rightarrow> Inl e | Inr x \<Rightarrow> f x)"

text \<open>\<open>v.get(key, default)\<close>: only a dict has the method.\<close>

fun py_get :: "json \<Rightarrow> pystr \<Rightarrow> json \<Rightarrow> error + json" where
  "py_get (JObj items) key dflt =
     Inr (case map_of items key of None \<Rightarrow> dflt | Some v \<Rightarrow> v)"
| "py_get _ key dflt = Inl AttributeError"

text \<open>
  \<open>str(v)\<close> and the \<open>{v}\<close> of an f-string: a string is itself; any other value is
  formatted by Python, which never raises on a parsed JSON value. The formatting of
  non-strings is the parameter \<open>repr\<close>.
\<close>

fun py_str :: "(json \<Rightarrow> pystr) \<Rightarrow> json \<Rightarrow> pystr" where
  "py_str repr (JStr s) = s"
| "py_str repr v = repr v"

text \<open>
  \<open>for ... in enumerate(v[:3])\<close>: the items the loop visits. A list gives its first
  three elements, a string its first three characters; a number, a boolean and
  \<open>None\<close> cannot be sliced (\<open>TypeError\<close>), and neither can a dict (\<open>TypeError\<close>
  too, \<open>KeyError\<close> from Python 3.12 on; the model says \<open>TypeError\<close>).
\<close>

fun slice3 :: "json \<Rightarrow> error + json list" where
  "slice3 (JArr xs) = Inr (take 3 xs)"
| "slice3 (JStr s) = Inr (map (\<lambda>c. JStr [c]) (take 3 s))"
| "slice3 _ = Inl TypeError"

text \<open>\<open>for ... in enumerate(v)\<close>: a dict is iterated by its keys.\<close>

fun py_iter :: "json \<Rightarrow> error + json list" where
  "py_iter (JArr xs) = Inr xs"
| "py_iter (JStr s) = Inr (map (\<lambda>c. JStr [c]) s)"
| "py_iter (JObj items) = Inr (map (\<lambda>kv. JStr (fst kv)) items)"
| "py_iter _ = Inl TypeError"

text \<open>\<open>v.split()\<close>: only a string has the method.\<close>

fun str_split :: "json \<Rightarrow> error + pystr list" where
  "str_split (JStr s) = Inr (split_ws s)"
| "str_split _ = Inl AttributeError"

section \<open>The canvas\<close>

text \<open>
  Lengths are in points, as ReportLab counts them, and exact: the source computes the
  same expressions in double precision. \<open>A4\<close> is 210 mm by 297 mm.
\<close>

definition inch :: rat where
  "inch = 72"

definition mm :: rat where
  "mm = inch / (254 / 100) * (1 / 10)"

definition width :: rat where
  "width = 210 * mm"

definition height :: rat where
  "height = 297 * mm"

datatype color = whitesmoke | cornflowerblue | white | black | gray

datatype font = Helvetica | Helvetica_Bold | Helvetica_Oblique

text \<open>
  A text object: its origin, the cursor's height \<open>cur_y\<close> (what \<open>getY()\<close> reads), the
  leading and the lines written. \<open>textLine\<close> writes a line at the cursor and moves the
  cursor down by the leading.
\<close>

record text_object =
  origin_x :: rat
  origin_y :: rat
  cur_y :: rat
  text_font :: font
  text_size :: nat
  leading :: rat
  text_lines :: "pystr list"

definition beginText :: "font \<Rightarrow> nat \<Rightarrow> rat \<Rightarrow> rat \<Rightarrow> text_object" where
  "beginText f sz x y =
     \<lparr>origin_x = x, origin_y = y, cur_y = y, text_font = f, text_size = sz,
      leading = of_nat sz * (12 / 10), text_lines = []\<rparr>"

definition setFont :: "font \<Rightarrow> nat \<Rightarrow> text_object \<Rightarrow> text_object" where
  "setFont f sz t = t\<lparr>text_font := f, text_size := sz, leading := of_nat sz * (12 / 10)\<rparr>"

definition setLeading :: "rat \<Rightarrow> text_object \<Rightarrow> text_object" where
  "setLeading l t = t\<lparr>leading := l\<rparr>"

definition textLine :: "text_object \<Rightarrow> pystr \<Rightarrow> text_object" where
  "textLine t s = t\<lparr>text_lines := text_lines t @ [s], cur_y := cur_y t - leading t\<rparr>"

definition getY :: "text_object \<Rightarrow> rat" where
  "getY t = cur_y t"

text \<open>
  The calls on the canvas, in the order made. \<open>Rect x y w h fill stroke\<close>;
  \<open>RoundRect x y w h radius fill stroke\<close>.
\<close>

datatype draw_op =
    SetFillColor color
  | SetFont font nat
  | Rect rat rat rat rat bool bool
  | RoundRect rat rat rat rat rat bool bool
  | DrawCentredString rat rat pystr
  | DrawString rat rat pystr
  | DrawText text_object

type_synonym document = "draw_op list"

text \<open>
  The world outside: the files on disk (a saved document is the list of its drawing
  calls), the paths that can be written, and the process environment.
\<close>

record world =
  files :: "pystr \<rightharpoonup> document"
  writable :: "pystr \<Rightarrow> bool"
  environ :: "pystr \<rightharpoonup> pystr"

text \<open>\<open>c.save()\<close>: writes the page to the canvas's file, or fails when it cannot.\<close>

definition save :: "world \<Rightarrow> pystr \<Rightarrow> document \<Rightarrow> error + world" where
  "save w filename doc =
     (if writable w filename then Inr (w\<lparr>files := (files w)(filename \<mapsto> doc)\<rparr>)
      else Inl OSError)"

section \<open>\<open>create_infographic_pdf\<close>\<close>

definition bullet :: pystr where
  "bullet = [8226, 32]"

text \<open>Lines 45 to 62: background, header, title, and the statistics heading.\<close>

definition header_ops :: "(json \<Rightarrow> pystr) \<Rightarrow> json \<Rightarrow> document" where
  "header_ops repr topic =
     [SetFillColor whitesmoke,
      Rect 0 0 width height True True,
      SetFillColor cornflowerblue,
      Rect 0 (height - 1.5 * inch) width (1.5 * inch) True False,
      SetFillColor white,
      SetFont Helvetica_Bold 30,
      DrawCentredString (width / 2) (height - 1 * inch) (py ''Infographic: '' @ py_str repr topic),
      SetFillColor black,
      SetFont Helvetica_Bold 16,
      DrawString (0.5 * inch) (height - 2.5 * inch) (py ''Key Statistics'')]"

definition box_width :: rat where
  "box_width = 2.2 * inch"

definition box_y :: rat where
  "box_y = (height - 2.5 * inch) - 1.5 * inch"

definition x_pos :: "nat \<Rightarrow> rat" where
  "x_pos i = 0.5 * inch + (of_nat i * (box_width + 0.2 * inch))"

text \<open>
  Lines 69 to 80: the body of the loop over the statistics. \<open>box_ops\<close> are the drawing
  calls of one box, given the two values read from the entry.
\<close>

definition box_ops :: "(json \<Rightarrow> pystr) \<Rightarrow> nat \<Rightarrow> json \<Rightarrow> json \<Rightarrow> document" where
  "box_ops repr i v l =
     [SetFillColor white,
      RoundRect (x_pos i) box_y box_width (1.2 * inch) 10 True False,
      SetFillColor cornflowerblue,
      SetFont Helvetica_Bold 20,
      DrawCentredString (x_pos i + box_width / 2) (box_y + 0.7 * inch) (py_str repr v),
      SetFillColor gray,
      SetFont Helvetica 10,
      DrawCentredString (x_pos i + box_width / 2) (box_y + 0.4 * inch) (py_str repr l)]"

definition stat_box :: "(json \<Rightarrow> pystr) \<Rightarrow> nat \<Rightarrow> json \<Rightarrow> error + document" where
  "stat_box repr i stat =
     and_then (py_get stat (py ''value'') (JStr [])) (\<lambda>v.
     and_then (py_get stat (py ''label'') (JStr [])) (\<lambda>l.
       Inr (box_ops repr i v l)))"

text \<open>Line 68: the loop, from index \<open>i\<close> on.\<close>

fun stat_boxes :: "(json \<Rightarrow> pystr) \<Rightarrow> nat \<Rightarrow> json list \<Rightarrow> error + document" where
  "stat_boxes repr i [] = Inr []"
| "stat_boxes repr i (stat # rest) =
     and_then (stat_box repr i stat) (\<lambda>ops.
     and_then (stat_boxes repr (Suc i) rest) (\<lambda>more. Inr (ops @ more)))"

text \<open>Lines 83 to 103: the summary heading and the wrapped summary.\<close>

definition summary_y :: rat where
  "summary_y = box_y - 0.5 * inch"

definition summary_text_object :: "pystr list \<Rightarrow> text_object" where
  "summary_text_object lines =
     foldl textLine
       (setLeading 14 (setFont Helvetica 11 (beginText Helvetica 11 (0.5 * inch) (summary_y - 0.3 * inch))))
       lines"

definition summary_ops :: "text_object \<Rightarrow> document" where
  "summary_ops t =
     [SetFillColor black,
      SetFont Helvetica_Bold 16,
      DrawString (0.5 * inch) summary_y (py ''Executive Summary''),
      SetFont Helvetica 11,
      DrawText t]"

text \<open>Lines 106 to 113: the fun fact, below the text object's cursor.\<close>

definition fun_fact_ops :: "(json \<Rightarrow> pystr) \<Rightarrow> rat \<Rightarrow> json \<Rightarrow> document" where
  "fun_fact_ops repr y fun_fact =
     [SetFillColor black,
      SetFont Helvetica_Bold 16,
      DrawString (0.5 * inch) (y - 0.5 * inch) (py ''Did You Know?''),
      SetFont Helvetica_Oblique 11,
      DrawString (0.5 * inch) ((y - 0.5 * inch) - 0.3 * inch) (bullet @ py_str repr fun_fact)]"

text \<open>The page: every drawing call of the function, or the exception it raises.\<close>

definition page :: "(json \<Rightarrow> pystr) \<Rightarrow> json \<Rightarrow> error + document" where
  "page repr data =
     and_then (py_get data (py ''topic'') (JStr (py ''Unknown Topic''))) (\<lambda>topic.
     and_then (py_get data (py ''stats'') (JArr [])) (\<lambda>stats.
     and_then (slice3 stats) (\<lambda>first3.
     and_then (stat_boxes repr 0 first3) (\<lambda>boxes.
     and_then (py_get data (py ''summary'') (JStr (py ''No summary available.''))) (\<lambda>summary_text.
     and_then (str_split summary_text) (\<lambda>words.
     let t = summary_text_object (wrap_words threshold words) in
     and_then (py_get data (py ''fun_fact'') (JStr [])) (\<lambda>fun_fact.
       Inr (header_ops repr topic @ boxes @ summary_ops t
            @ fun_fact_ops repr (getY t) fun_fact))))))))"

definition create_infographic_pdf ::
  "(json \<Rightarrow> pystr) \<Rightarrow> world \<Rightarrow> json \<Rightarrow> pystr \<Rightarrow> error + world \<times> pystr" where
  "create_infographic_pdf repr w data filename =
     and_then (page repr data) (\<lambda>doc.
     and_then (save w filename doc) (\<lambda>w'. Inr (w', filename)))"

section \<open>Reading a document\<close>

text \<open>
  What a page shows, read off its drawing calls: the rounded boxes (position and size),
  the centred strings, the left-aligned strings, and the lines of its text objects.
\<close>

fun round_rects :: "document \<Rightarrow> (rat \<times> rat \<times> rat \<times> rat) list" where
  "round_rects [] = []"
| "round_rects (RoundRect x y w h r fill stroke # ops) = (x, y, w, h) # round_rects ops"
| "round_rects (_ # ops) = round_rects ops"

fun centred_strings :: "document \<Rightarrow> (rat \<times> rat \<times> pystr) list" where
  "centred_strings [] = []"
| "centred_strings (DrawCentredString x y s # ops) = (x, y, s) # centred_strings ops"
| "centred_strings (_ # ops) = centred_strings ops"

fun left_strings :: "document \<Rightarrow> (rat \<times> rat \<times> pystr) list" where
  "left_strings [] = []"
| "left_strings (DrawString x y s # ops) = (x, y, s) # left_strings ops"
| "left_strings (_ # ops) = left_strings ops"

fun drawn_lines :: "document \<Rightarrow> pystr list" where
  "drawn_lines [] = []"
| "drawn_lines (DrawText t # ops) = text_lines t @ drawn_lines ops"
| "drawn_lines (_ # ops) = drawn_lines ops"

text \<open>
  The records of the data model: a dict whose \<open>stats\<close>, when present, is a list with
  dicts as its first three entries, and whose \<open>summary\<close>, when present, is a string.
  Every field may be missing; \<open>topic\<close>, \<open>fun_fact\<close> and the entries' \<open>label\<close> and
  \<open>value\<close> may hold any value.
\<close>

fun is_obj :: "json \<Rightarrow> bool" where
  "is_obj (JObj items) = True"
| "is_obj _ = False"

fun stats_ok :: "json option \<Rightarrow> bool" where
  "stats_ok None = True"
| "stats_ok (Some (JArr xs)) = list_all is_obj (take 3 xs)"
| "stats_ok (Some _) = False"

fun summary_ok :: "json option \<Rightarrow> bool" where
  "summary_ok None = True"
| "summary_ok (Some (JStr s)) = True"
| "summary_ok (Some _) = False"

definition well_typed :: "(pystr \<times> json) list \<Rightarrow> bool" where
  "well_typed items =
     (stats_ok (map_of items (py ''stats'')) \<and> summary_ok (map_of items (py ''summary'')))"

text \<open>The value of a field of a dict, or the default when the field is missing.\<close>

definition field_or :: "(pystr \<times> json) list \<Rightarrow> pystr \<Rightarrow> json \<Rightarrow> json" where
  "field_or items key dflt = (case map_of items key of None \<Rightarrow> dflt | Some v \<Rightarrow> v)"

text \<open>The entries of the \<open>stats\<close> list and the text of the \<open>summary\<close> of such a record.\<close>

definition stats_of :: "(pystr \<times> json) list \<Rightarrow> json list" where
  "stats_of items = (case map_of items (py ''stats'') of Some (JArr xs) \<Rightarrow> xs | _ \<Rightarrow> [])"

definition summary_of :: "(pystr \<times> json) list \<Rightarrow> pystr" where
  "summary_of items =
     (case map_of items (py ''summary'') of Some (JStr s) \<Rightarrow> s | _ \<Rightarrow> py ''No summary available.'')"

text \<open>The items of a dict entry of \<open>stats\<close>.\<close>

fun items_of :: "json \<Rightarrow> (pystr \<times> json) list" where
  "items_of (JObj items) = items"
| "items_of _ = []"

text \<open>
  The page of such a record, written out: the drawing calls of a dict entry of \<open>stats\<close>
  at index \<open>i\<close>, of a list of entries from index \<open>i\<close> on, and of the whole page.
\<close>

definition entry_ops :: "(json \<Rightarrow> pystr) \<Rightarrow> nat \<Rightarrow> json \<Rightarrow> document" where
  "entry_ops repr i stat =
     box_ops repr i (field_or (items_of stat) (py ''value'') (JStr []))
       (field_or (items_of stat) (py ''label'') (JStr []))"

fun boxes_from :: "(json \<Rightarrow> pystr) \<Rightarrow> nat \<Rightarrow> json list \<Rightarrow> document" where
  "boxes_from repr i [] = []"
| "boxes_from repr i (stat # rest) = entry_ops repr i stat @ boxes_from repr (Suc i) rest"

definition page_of :: "(json \<Rightarrow> pystr) \<Rightarrow> (pystr \<times> json) list \<Rightarrow> document" where
  "page_of repr items =
     (let t = summary_text_object (wrap_words threshold (split_ws (summary_of items))) in
      header_ops repr (field_or items (py ''topic'') (JStr (py ''Unknown Topic'')))
      @ boxes_from repr 0 (take 3 (stats_of items))
      @ summary_ops t
      @ fun_fact_ops repr (getY t) (field_or items (py ''fun_fact'') (JStr [])))"

section \<open>Fenced JSON\<close>

text \<open>The fence marker is three backticks (code point 96).\<close>

definition fence :: pystr where
  "fence = [96, 96, 96]"

definition fence_json :: pystr where
  "fence_json = fence @ py ''json''"

text \<open>\<open>sep in s\<close>.\<close>

fun contains :: "pystr \<Rightarrow> pystr \<Rightarrow> bool" where
  "contains sep [] = (sep = [])"
| "contains sep (c # cs) = (prefix sep (c # cs) \<or> contains sep cs)"

text \<open>
  \<open>s.split(sep)\<close>: the text is scanned from the left; at each occurrence of the
  separator the piece read so far ends and the scan goes on behind the separator.
  Python refuses an empty separator.
\<close>

function split_at :: "pystr \<Rightarrow> pystr \<Rightarrow> pystr \<Rightarrow> pystr list" where
  "split_at sep cur [] = [cur]"
| "split_at sep cur (c # cs) =
     (if prefix sep (c # cs) then cur # split_at sep [] (drop (length sep - 1) cs)
      else split_at sep (cur @ [c]) cs)"
  by pat_completeness auto
termination
  by (relation "measure (\<lambda>(sep, cur, s). length s)") auto

definition py_split :: "pystr \<Rightarrow> pystr \<Rightarrow> error + pystr list" where
  "py_split sep s = (if sep = [] then Inl ValueError else Inr (split_at sep [] s))"

text \<open>\<open>xs[i]\<close> for an index that is not negative.\<close>

definition item :: "'a list \<Rightarrow> nat \<Rightarrow> error + 'a" where
  "item xs i = (if i < length xs then Inr (xs ! i) else Inl IndexError)"

text \<open>Lines 222 to 225 of \<open>main\<close>, on the stripped text.\<close>

definition extract_json :: "pystr \<Rightarrow> error + pystr" where
  "extract_json raw_json =
     (if contains fence_json raw_json then
        and_then (py_split fence_json raw_json) (\<lambda>parts.
        and_then (item parts 1) (\<lambda>inner.
        and_then (py_split fence inner) (\<lambda>pieces. item pieces 0)))
      else if contains fence raw_json then
        and_then (py_split fence raw_json) (\<lambda>parts.
        and_then (item parts 1) (\<lambda>inner.
        and_then (py_split fence inner) (\<lambda>pieces. item pieces 0)))
      else Inr raw_json)"

text \<open>
  The specification's reading: the text behind the first occurrence of a marker, the
  text before the first occurrence of a marker, and the content between the first pair
  of fence markers (the text itself when it has no fence marker).
\<close>

fun after_first :: "pystr \<Rightarrow> pystr \<Rightarrow> pystr" where
  "after_first sep [] = []"
| "after_first sep (c # cs) =
     (if prefix sep (c # cs) then drop (length sep - 1) cs else after_first sep cs)"

fun before_first :: "pystr \<Rightarrow> pystr \<Rightarrow> pystr" where
  "before_first sep [] = []"
| "before_first sep (c # cs) =
     (if prefix sep (c # cs) then [] else c # before_first sep cs)"

definition first_fence_content :: "pystr \<Rightarrow> pystr" where
  "first_fence_content s =
     (if contains fence s then before_first fence (after_first fence s) else s)"

text \<open>
  What the caller parses: the content of the first block opened by the \<open>json\<close> marker
  when there is one, else the content between the first pair of fence markers, of the
  stripped text.
\<close>

definition parsed_text :: "pystr \<Rightarrow> pystr" where
  "parsed_text out =
     (let t = strip out in
      if contains fence_json t
      then before_first fence (before_first fence_json (after_first fence_json t))
      else first_fence_content t)"

section \<open>\<open>main\<close>\<close>

text \<open>
  What a run of the button's handler does, in order: the Streamlit elements it shows,
  the call of the crew and the call of \<open>json.loads\<close>. Streamlit's own checks of what
  it is given are not modelled.
\<close>

datatype event =
    StError pystr
  | StWarning pystr
  | StSuccess pystr
  | StMarkdown pystr
  | StInfo json
  | StMetric nat json json
  | StDownloadButton pystr document pystr pystr
  | StSpinner pystr
  | CrewKickoff pystr pystr
  | JsonLoads pystr

text \<open>
  What the run is given from outside: Python's formatting of non-strings and of
  exceptions, \<open>json.loads\<close>, and what the crew returns (as text) or raises for a topic
  and a key.
\<close>

record externals =
  py_repr :: "json \<Rightarrow> pystr"
  exc_str :: "error \<Rightarrow> pystr"
  json_loads :: "pystr \<Rightarrow> error + json"
  kickoff :: "pystr \<Rightarrow> pystr \<Rightarrow> error + pystr"

definition hint :: pystr where
  "hint = py ''If you get a 404 error, check your API Key permissions or try using model=''
     @ [39] @ py ''gemini/gemini-1.5-flash-latest'' @ [39] @ py '' in app.py''"

text \<open>Lines 252 to 256: the handler of every exception of the \<open>try\<close> block.\<close>

definition on_exception :: "externals \<Rightarrow> event list \<Rightarrow> world \<Rightarrow> error \<Rightarrow> event list \<times> world" where
  "on_exception ext shown w e =
     (shown @ [StError (py ''Error: '' @ exc_str ext e), StWarning hint], w)"

text \<open>Lines 236 to 238: the loop over the statistics, from index \<open>i\<close> on.\<close>

fun metrics :: "nat \<Rightarrow> json list \<Rightarrow> event list \<times> error option" where
  "metrics i [] = ([], None)"
| "metrics i (stat # rest) =
     (if i < 3 then
        (case py_get stat (py ''label'') JNull of
           Inl e \<Rightarrow> ([], Some e)
         | Inr l \<Rightarrow>
            (case py_get stat (py ''value'') JNull of
               Inl e \<Rightarrow> ([], Some e)
             | Inr v \<Rightarrow> (case metrics (Suc i) rest of (evs, r) \<Rightarrow> (StMetric i l v # evs, r))))
      else metrics (Suc i) rest)"

text \<open>Lines 230 to 250: what is done with the parsed record.\<close>

definition display :: "externals \<Rightarrow> event list \<Rightarrow> world \<Rightarrow> pystr \<Rightarrow> json \<Rightarrow> event list \<times> world" where
  "display ext shown w topic data =
     (let ev1 = shown @ [StSuccess (py ''Success!'')] in
      case py_get data (py ''topic'') (JStr topic) of
        Inl e \<Rightarrow> on_exception ext ev1 w e
      | Inr t \<Rightarrow>
     (let ev2 = ev1 @ [StMarkdown ([35, 35, 32, 128202, 32] @ py_str (py_repr ext) t)] in
      case py_get data (py ''summary'') JNull of
        Inl e \<Rightarrow> on_exception ext ev2 w e
      | Inr s \<Rightarrow>
     (let ev3 = ev2 @ [StInfo s] in
      case and_then (py_get data (py ''stats'') (JArr [])) py_iter of
        Inl e \<Rightarrow> on_exception ext ev3 w e
      | Inr stats \<Rightarrow>
     (case metrics 0 stats of
        (shown_metrics, Some e) \<Rightarrow> on_exception ext (ev3 @ shown_metrics) w e
      | (shown_metrics, None) \<Rightarrow>
     (let ev4 = ev3 @ shown_metrics in
      case py_get data (py ''fun_fact'') JNull of
        Inl e \<Rightarrow> on_exception ext ev4 w e
      | Inr f \<Rightarrow>
     (let ev5 = ev4 @ [StWarning (py ''Did you know? '' @ py_str (py_repr ext) f)] in
      case create_infographic_pdf (py_repr ext) w data (py ''infographic.pdf'') of
        Inl e \<Rightarrow> on_exception ext ev5 w e
      | Inr (w', pdf_file) \<Rightarrow>
     (case files w' pdf_file of
        None \<Rightarrow> on_exception ext ev5 w' OSError
      | Some doc \<Rightarrow>
          (ev5 @ [StDownloadButton (py ''Download PDF'') doc (topic @ py ''_infographic.pdf'')
                    (py ''application/pdf'')], w'))))))))"

text \<open>
  Lines 209 to 256: the handler of the button, given whether it was pressed and the two
  inputs. \<open>run_crew_research\<close> first puts the key into the environment.
\<close>

definition main :: "externals \<Rightarrow> world \<Rightarrow> bool \<Rightarrow> pystr \<Rightarrow> pystr \<Rightarrow> event list \<times> world" where
  "main ext w pressed topic api_key =
     (if \<not> pressed then ([], w)
      else if api_key = [] then ([StError (py ''Please enter your API Key.'')], w)
      else if topic = [] then ([StWarning (py ''Please enter a topic.'')], w)
      else
       (let ev0 = [StSpinner ([129302] @ py '' Researching & Designing...''),
                   CrewKickoff topic api_key];
            w0 = w\<lparr>environ := (environ w)(py ''GOOGLE_API_KEY'' \<mapsto> api_key)\<rparr>
        in case kickoff ext topic api_key of
             Inl e \<Rightarrow> on_exception ext ev0 w0 e
           | Inr crew_output \<Rightarrow>
              (case extract_json (strip crew_output) of
                 Inl e \<Rightarrow> on_exception ext ev0 w0 e
               | Inr raw_json \<Rightarrow>
                  (case json_loads ext raw_json of
                     Inl e \<Rightarrow> on_exception ext (ev0 @ [JsonLoads raw_json]) w0 e
                   | Inr data \<Rightarrow> display ext (ev0 @ [JsonLoads raw_json]) w0 topic data))))"

text \<open>
  Reading a run: the error messages shown, and whether an element shows a result (the
  success note, the heading, the summary, a metric, the fun fact or the download button;
  the fun fact is the warning that is not the hint and not the request for a topic).
\<close>

fun errors_shown :: "event list \<Rightarrow> pystr list" where
  "errors_shown [] = []"
| "errors_shown (StError msg # evs) = msg # errors_shown evs"
| "errors_shown (_ # evs) = errors_shown evs"

fun is_result :: "event \<Rightarrow> bool" where
  "is_result (StSuccess msg) = True"
| "is_result (StMarkdown msg) = True"
| "is_result (StInfo v) = True"
| "is_result (StMetric i l v) = True"
| "is_result (StDownloadButton label doc name mime) = True"
| "is_result (StWarning msg) = (msg \<noteq> hint \<and> msg \<noteq> py ''Please enter a topic.'')"
| "is_result _ = False"

text \<open>The start of a run that passes both checks, and the environment it leaves.\<close>

definition started :: "pystr \<Rightarrow> pystr \<Rightarrow> event list" where
  "started topic api_key =
     [StSpinner ([129302] @ py '' Researching & Designing...''), CrewKickoff topic api_key]"

definition with_key :: "world \<Rightarrow> pystr \<Rightarrow> world" where
  "with_key w api_key = w\<lparr>environ := (environ w)(py ''GOOGLE_API_KEY'' \<mapsto> api_key)\<rparr>"

section \<open>The word wrap: the loop and the procedure\<close>

lemma wrap_step_flush:
  "thr < length (join (py '' '') (line st @ [w])) \<Longrightarrow>
   wrap_step thr st w = \<lparr>line = [], emitted = emitted st @ [join (py '' '') (line st @ [w])]\<rparr>"
  by (simp add: wrap_step_def Let_def)

lemma wrap_step_keep:
  "\<not> thr < length (join (py '' '') (line st @ [w])) \<Longrightarrow>
   wrap_step thr st w = \<lparr>line = line st @ [w], emitted = emitted st\<rparr>"
  by (simp add: wrap_step_def Let_def)

lemma foldl_wrap_step:
  "emitted (foldl (wrap_step thr) st ws) @ [join (py '' '') (line (foldl (wrap_step thr) st ws))]
     = emitted st @ spec_wrap thr (line st) ws"
proof (induction ws arbitrary: st)
  case Nil
  show ?case by simp
next
  case (Cons w ws)
  have step: "emitted (foldl (wrap_step thr) (wrap_step thr st w) ws)
        @ [join (py '' '') (line (foldl (wrap_step thr) (wrap_step thr st w) ws))]
      = emitted (wrap_step thr st w) @ spec_wrap thr (line (wrap_step thr st w)) ws"
    by (rule Cons.IH)
  show ?case
  proof (cases "thr < length (join (py '' '') (line st @ [w]))")
    case True
    with step show ?thesis by (simp add: wrap_step_flush)
  next
    case False
    with step show ?thesis by (simp add: wrap_step_keep)
  qed
qed

lemma wrap_words_spec_wrap: "wrap_words thr ws = spec_wrap thr [] ws"
  using foldl_wrap_step [of thr "\<lparr>line = [], emitted = []\<rparr>" ws]
  by (simp add: wrap_words_def run_wrap_def Let_def)

lemma spec_wrap_groups: "spec_wrap thr buf ws = map (join (py '' '')) (wrap_groups thr buf ws)"
  by (induction ws arbitrary: buf) simp_all

lemma concat_wrap_groups: "concat (wrap_groups thr buf ws) = buf @ ws"
  by (induction ws arbitrary: buf) simp_all

lemma wrap_groups_nonempty: "wrap_groups thr buf ws \<noteq> []"
  by (induction ws arbitrary: buf) simp_all

lemma wrap_groups_breaks:
  "length (join (py '' '') buf) \<le> thr \<Longrightarrow>
   list_all (\<lambda>g. g \<noteq> [] \<and> thr < length (join (py '' '') g) \<and> length (join (py '' '') (butlast g)) \<le> thr)
     (butlast (wrap_groups thr buf ws))
   \<and> length (join (py '' '') (last (wrap_groups thr buf ws))) \<le> thr"
proof (induction ws arbitrary: buf)
  case Nil
  then show ?case by simp
next
  case (Cons w ws)
  show ?case
  proof (cases "thr < length (join (py '' '') (buf @ [w]))")
    case True
    have "length (join (py '' '') ([]::pystr list)) \<le> thr" by simp
    from Cons.IH [OF this] True Cons.prems show ?thesis
      by (simp add: wrap_groups_nonempty)
  next
    case False
    then have "length (join (py '' '') (buf @ [w])) \<le> thr" by simp
    from Cons.IH [OF this] False show ?thesis by simp
  qed
qed

lemma split_from_word:
  "list_all (\<lambda>c. \<not> is_space c) w \<Longrightarrow> split_from cur (w @ rest) = split_from (cur @ w) rest"
  by (induction w arbitrary: cur) simp_all

lemma split_from_spaces_empty:
  "list_all is_space sep \<Longrightarrow> split_from [] (sep @ rest) = split_from [] rest"
  by (induction sep) simp_all

lemma split_from_spaces:
  "list_all is_space sep \<Longrightarrow> sep \<noteq> [] \<Longrightarrow> cur \<noteq> [] \<Longrightarrow>
   split_from cur (sep @ rest) = cur # split_from [] rest"
  by (cases sep) (simp_all add: split_from_spaces_empty)

lemma split_from_good:
  "list_all (\<lambda>c. \<not> is_space c) cur \<Longrightarrow>
   list_all good_word (split_from cur s)"
  by (induction s arbitrary: cur) (simp_all add: good_word_def)

lemma split_ws_good: "list_all good_word (split_ws s)"
  by (simp add: split_ws_def split_from_good)

lemma is_space_32: "is_space 32" by (simp add: is_space_def)

lemma py_space: "py '' '' = [32]" by (simp add: py_def)

lemma split_from_good_rest:
  "good_word x \<Longrightarrow> space_led rest \<Longrightarrow> split_from [] (x @ rest) = x # split_from [] rest"
  using split_from_word [of x "[]" rest]
  by (cases rest) (simp_all add: good_word_def space_led_def)

lemma split_join_words:
  "list_all good_word ws \<Longrightarrow> space_led rest \<Longrightarrow>
   split_from [] (join (py '' '') ws @ rest) = ws @ split_from [] rest"
proof (induction "py '' ''" ws rule: join.induct)
  case 1
  show ?case by simp
next
  case (2 x)
  then show ?case by (simp add: split_from_good_rest)
next
  case (3 x y ys)
  have "space_led (py '' '' @ join (py '' '') (y # ys) @ rest)"
    by (simp add: py_space space_led_def is_space_32)
  with 3 show ?case
    by (simp add: split_from_good_rest) (simp add: py_space is_space_32)
qed

lemma split_join_lines:
  "list_all (list_all good_word) gs \<Longrightarrow> list_all is_space sep \<Longrightarrow> sep \<noteq> [] \<Longrightarrow>
   space_led rest \<Longrightarrow>
   split_from [] (join sep (map (join (py '' '')) gs) @ rest) = concat gs @ split_from [] rest"
proof (induction gs)
  case Nil
  show ?case by simp
next
  case (Cons g gs)
  show ?case
  proof (cases gs)
    case Nil
    with Cons.prems show ?thesis by (simp add: split_join_words)
  next
    case (Cons h hs)
    have led: "space_led (sep @ join sep (map (join (py '' '')) gs) @ rest)"
      using \<open>list_all is_space sep\<close> \<open>sep \<noteq> []\<close> by (cases sep) (simp_all add: space_led_def)
    have "split_from [] (join sep (map (join (py '' '')) (g # gs)) @ rest)
        = split_from [] (join (py '' '') g @ sep @ join sep (map (join (py '' '')) gs) @ rest)"
      using Cons by simp
    also have "\<dots> = g @ split_from [] (sep @ join sep (map (join (py '' '')) gs) @ rest)"
      using Cons.prems led by (simp add: split_join_words)
    also have "\<dots> = g @ split_from [] (join sep (map (join (py '' '')) gs) @ rest)"
      using Cons.prems by (simp add: split_from_spaces_empty)
    also have "\<dots> = g @ concat gs @ split_from [] rest"
      using Cons.IH Cons.prems by simp
    finally show ?thesis by simp
  qed
qed

lemma groups_good:
  "list_all good_word buf \<Longrightarrow> list_all good_word ws \<Longrightarrow>
   list_all (list_all good_word) (wrap_groups thr buf ws)"
  by (induction ws arbitrary: buf) simp_all

lemma split_rejoined:
  assumes "list_all good_word ws" "list_all is_space sep" "sep \<noteq> []"
  shows "split_ws (join sep (wrap_words thr ws)) = ws"
proof -
  have "split_from [] (join sep (map (join (py '' '')) (wrap_groups thr [] ws)) @ [])
      = concat (wrap_groups thr [] ws) @ split_from [] []"
    using assms by (intro split_join_lines groups_good) (simp_all add: space_led_def)
  then show ?thesis
    by (simp add: split_ws_def wrap_words_spec_wrap spec_wrap_groups concat_wrap_groups)
qed

section \<open>The page of a well-typed record\<close>

lemma and_then_Inr [simp]: "and_then (Inr x) f = f x"
  by (simp add: and_then_def)

lemma and_then_Inl [simp]: "and_then (Inl e) f = Inl e"
  by (simp add: and_then_def)

lemma stat_box_obj: "is_obj stat \<Longrightarrow> stat_box repr i stat = Inr (entry_ops repr i stat)"
  by (cases stat) (simp_all add: stat_box_def entry_ops_def field_or_def)

lemma stat_boxes_objs:
  "list_all is_obj xs \<Longrightarrow> stat_boxes repr i xs = Inr (boxes_from repr i xs)"
  by (induction xs arbitrary: i) (simp_all add: stat_box_obj)

lemma page_well_typed:
  assumes "well_typed items"
  shows "page repr (JObj items) = Inr (page_of repr items)"
proof -
  from assms have st: "stats_ok (map_of items (py ''stats''))"
    and su: "summary_ok (map_of items (py ''summary''))"
    by (simp_all add: well_typed_def)
  have sl: "slice3 (case map_of items (py ''stats'') of None \<Rightarrow> JArr [] | Some v \<Rightarrow> v)
      = Inr (take 3 (stats_of items))"
    using st by (cases "map_of items (py ''stats'')" rule: stats_ok.cases)
      (simp_all add: stats_of_def)
  have ok: "list_all is_obj (take 3 (stats_of items))"
    using st by (cases "map_of items (py ''stats'')" rule: stats_ok.cases)
      (simp_all add: stats_of_def)
  have words: "str_split (case map_of items (py ''summary'') of
        None \<Rightarrow> JStr (py ''No summary available.'') | Some v \<Rightarrow> v)
      = Inr (split_ws (summary_of items))"
    using su by (cases "map_of items (py ''summary'')" rule: summary_ok.cases)
      (simp_all add: summary_of_def)
  show ?thesis
    using sl words stat_boxes_objs [OF ok, of repr 0]
    by (simp add: page_def page_of_def field_or_def Let_def)
qed

section \<open>What the page shows\<close>

lemma round_rects_append [simp]: "round_rects (xs @ ys) = round_rects xs @ round_rects ys"
  by (induction xs rule: round_rects.induct) simp_all

lemma centred_strings_append [simp]:
  "centred_strings (xs @ ys) = centred_strings xs @ centred_strings ys"
  by (induction xs rule: centred_strings.induct) simp_all

lemma left_strings_append [simp]: "left_strings (xs @ ys) = left_strings xs @ left_strings ys"
  by (induction xs rule: left_strings.induct) simp_all

lemma drawn_lines_append [simp]: "drawn_lines (xs @ ys) = drawn_lines xs @ drawn_lines ys"
  by (induction xs rule: drawn_lines.induct) simp_all

lemma foldl_textLine:
  "text_lines (foldl textLine t ls) = text_lines t @ ls
   \<and> leading (foldl textLine t ls) = leading t
   \<and> cur_y (foldl textLine t ls) = cur_y t - of_nat (length ls) * leading t"
proof (induction ls arbitrary: t)
  case Nil
  show ?case by simp
next
  case (Cons l ls)
  show ?case
    using Cons.IH [of "textLine t l"]
    by (simp add: textLine_def algebra_simps)
qed

lemma summary_text_object_lines: "text_lines (summary_text_object ls) = ls"
  using foldl_textLine
  by (simp add: summary_text_object_def setLeading_def setFont_def beginText_def)

lemma summary_text_object_getY:
  "getY (summary_text_object ls) = (summary_y - 0.3 * inch) - 14 * of_nat (length ls)"
  using foldl_textLine
  by (simp add: summary_text_object_def setLeading_def setFont_def beginText_def getY_def)

lemma boxes_from_round_rects:
  "round_rects (boxes_from repr i xs)
     = map (\<lambda>k. (x_pos k, box_y, box_width, 1.2 * inch)) [i..<i + length xs]"
proof (induction xs arbitrary: i)
  case Nil
  show ?case by simp
next
  case (Cons x xs)
  have "[i..<i + length (x # xs)] = i # [Suc i..<Suc i + length xs]"
    by (simp add: upt_conv_Cons del: upt_Suc)
  then show ?case
    using Cons.IH [of "Suc i"] by (simp add: entry_ops_def box_ops_def)
qed

lemma boxes_from_drawn_lines: "drawn_lines (boxes_from repr i xs) = []"
  by (induction xs arbitrary: i) (simp_all add: entry_ops_def box_ops_def)

lemma boxes_from_left_strings: "left_strings (boxes_from repr i xs) = []"
  by (induction xs arbitrary: i) (simp_all add: entry_ops_def box_ops_def)

lemma page_of_drawn_lines:
  "drawn_lines (page_of repr items) = wrap_words threshold (split_ws (summary_of items))"
  by (simp add: page_of_def Let_def header_ops_def summary_ops_def fun_fact_ops_def
      boxes_from_drawn_lines summary_text_object_lines)

lemma page_of_round_rects:
  "round_rects (page_of repr items)
     = map (\<lambda>k. (x_pos k, box_y, box_width, 1.2 * inch)) [0..<min 3 (length (stats_of items))]"
  by (simp add: page_of_def Let_def header_ops_def summary_ops_def fun_fact_ops_def
      boxes_from_round_rects min.commute)

lemma page_of_left_strings:
  "left_strings (page_of repr items)
     = [(0.5 * inch, height - 2.5 * inch, py ''Key Statistics''),
        (0.5 * inch, summary_y, py ''Executive Summary''),
        (0.5 * inch,
         (summary_y - 0.3 * inch)
           - 14 * of_nat (length (wrap_words threshold (split_ws (summary_of items))))
           - 0.5 * inch,
         py ''Did You Know?''),
        (0.5 * inch,
         (summary_y - 0.3 * inch)
           - 14 * of_nat (length (wrap_words threshold (split_ws (summary_of items))))
           - 0.5 * inch - 0.3 * inch,
         bullet @ py_str repr (field_or items (py ''fun_fact'') (JStr [])))]"
  by (simp add: page_of_def Let_def header_ops_def summary_ops_def fun_fact_ops_def
      boxes_from_left_strings summary_text_object_getY)

lemma boxes_from_centred_strings:
  "centred_strings (boxes_from repr i xs)
     = concat (map (\<lambda>(k, stat).
         [(x_pos k + box_width / 2, box_y + 0.7 * inch,
             py_str repr (field_or (items_of stat) (py ''value'') (JStr []))),
          (x_pos k + box_width / 2, box_y + 0.4 * inch,
             py_str repr (field_or (items_of stat) (py ''label'') (JStr [])))])
       (enumerate i xs))"
  by (induction xs arbitrary: i) (simp_all add: entry_ops_def box_ops_def)

lemma page_of_centred_strings:
  "centred_strings (page_of repr items)
     = (width / 2, height - 1 * inch,
          py ''Infographic: '' @ py_str repr (field_or items (py ''topic'') (JStr (py ''Unknown Topic''))))
       # concat (map (\<lambda>(k, stat).
         [(x_pos k + box_width / 2, box_y + 0.7 * inch,
             py_str repr (field_or (items_of stat) (py ''value'') (JStr []))),
          (x_pos k + box_width / 2, box_y + 0.4 * inch,
             py_str repr (field_or (items_of stat) (py ''label'') (JStr [])))])
       (enumerate 0 (take 3 (stats_of items))))"
  by (simp add: page_of_def Let_def header_ops_def summary_ops_def fun_fact_ops_def
      boxes_from_centred_strings)

lemma render_well_typed:
  assumes "well_typed items"
  shows "create_infographic_pdf repr w (JObj items) filename
     = (if writable w filename
        then Inr (w\<lparr>files := (files w)(filename \<mapsto> page_of repr items)\<rparr>, filename)
        else Inl OSError)"
  by (simp add: create_infographic_pdf_def page_well_typed [OF assms] save_def)

lemma wrap_placeholder:
  "wrap_words threshold (split_ws (py ''No summary available.'')) = [py ''No summary available.'']"
  by (simp add: wrap_words_spec_wrap threshold_def split_ws_def py_def is_space_def)

lemma run_wrap_snoc: "run_wrap thr (ws @ [w]) = wrap_step thr (run_wrap thr ws) w"
  by (simp add: run_wrap_def)

lemma wrap_words_nonempty: "wrap_words thr ws \<noteq> []"
  by (simp add: wrap_words_def Let_def)

lemma last_word_flush_lines:
  assumes "last_word_flushes thr ws"
  shows "emitted (run_wrap thr ws)
       = emitted (run_wrap thr (butlast ws))
         @ [join (py '' '') (line (run_wrap thr (butlast ws)) @ [last ws])]
     \<and> line (run_wrap thr ws) = []"
proof -
  from assms have ne: "ws \<noteq> []"
    and over: "thr < length (join (py '' '') (line (run_wrap thr (butlast ws)) @ [last ws]))"
    by (simp_all add: last_word_flushes_def)
  from ne have "run_wrap thr ws = wrap_step thr (run_wrap thr (butlast ws)) (last ws)"
    using run_wrap_snoc [of thr "butlast ws" "last ws"] by simp
  with over show ?thesis
    by (simp add: wrap_step_flush)
qed

section \<open>Splitting at a marker\<close>

lemma before_first_prefix: "prefix (before_first sep s) s"
  by (induction s) simp_all

lemma before_first_clean: "sep \<noteq> [] \<Longrightarrow> \<not> contains sep (before_first sep s)"
proof (induction s)
  case Nil
  then show ?case by simp
next
  case (Cons c cs)
  show ?case
  proof (cases "prefix sep (c # cs)")
    case True
    with Cons.prems show ?thesis by simp
  next
    case False
    have "\<not> prefix sep (c # before_first sep cs)"
    proof
      assume "prefix sep (c # before_first sep cs)"
      moreover have "prefix (c # before_first sep cs) (c # cs)"
        by (simp add: before_first_prefix)
      ultimately have "prefix sep (c # cs)"
        by (rule prefix_order.trans)
      with False show False by simp
    qed
    with False Cons show ?thesis by simp
  qed
qed

lemma before_first_none: "\<not> contains sep s \<Longrightarrow> before_first sep s = s"
  by (induction s) simp_all

lemma split_at_first:
  "sep \<noteq> [] \<Longrightarrow>
   split_at sep cur s
     = (if contains sep s
        then (cur @ before_first sep s) # split_at sep [] (after_first sep s)
        else [cur @ s])"
  by (induction sep cur s rule: split_at.induct) simp_all

lemma split_at_hd: "sep \<noteq> [] \<Longrightarrow> hd (split_at sep [] s) = before_first sep s"
  by (simp add: split_at_first [of sep "[]" s] before_first_none)

lemma split_at_nonempty: "split_at sep cur s \<noteq> []"
  by (induction sep cur s rule: split_at.induct) simp_all

lemma item_0: "xs \<noteq> [] \<Longrightarrow> item xs 0 = Inr (hd xs)"
  by (cases xs) (simp_all add: item_def)

lemma split_item_0: "sep \<noteq> [] \<Longrightarrow> and_then (py_split sep s) (\<lambda>pieces. item pieces 0) = Inr (before_first sep s)"
  by (simp add: py_split_def item_0 split_at_nonempty split_at_hd)

lemma split_item_1:
  assumes "sep \<noteq> []" and "contains sep s"
  shows "item (split_at sep [] s) 1 = Inr (before_first sep (after_first sep s))"
proof -
  have "split_at sep [] s = before_first sep s # split_at sep [] (after_first sep s)"
    using assms by (simp add: split_at_first [of sep "[]" s])
  moreover have "split_at sep [] (after_first sep s) \<noteq> []"
    by (rule split_at_nonempty)
  ultimately show ?thesis
    using split_at_hd [OF assms(1), of "after_first sep s"]
    by (cases "split_at sep [] (after_first sep s)") (simp_all add: item_def)
qed

lemma fence_nonempty: "fence \<noteq> []" "fence_json \<noteq> []"
  by (simp_all add: fence_def fence_json_def)

lemma extract_with:
  assumes "sep \<noteq> []" and "contains sep s"
  shows "and_then (py_split sep s) (\<lambda>parts.
        and_then (item parts 1) (\<lambda>inner.
        and_then (py_split fence inner) (\<lambda>pieces. item pieces 0)))
     = Inr (before_first fence (before_first sep (after_first sep s)))"
  using assms split_item_1 [OF assms] split_item_0 [OF fence_nonempty(1)]
  by (simp add: py_split_def)

lemma before_first_twice: "sep \<noteq> [] \<Longrightarrow> before_first sep (before_first sep s) = before_first sep s"
  by (simp add: before_first_none before_first_clean)

lemma extract_json_cases:
  "extract_json s
     = Inr (if contains fence_json s
            then before_first fence (before_first fence_json (after_first fence_json s))
            else first_fence_content s)"
proof (cases "contains fence_json s")
  case True
  then show ?thesis
    using extract_with [OF fence_nonempty(2) True]
    by (simp only: extract_json_def if_True)
next
  case False
  show ?thesis
  proof (cases "contains fence s")
    case True
    with False show ?thesis
      using extract_with [OF fence_nonempty(1) True]
      by (simp only: extract_json_def first_fence_content_def if_True if_False
          before_first_twice [OF fence_nonempty(1)])
  next
    case no_fence: False
    with False show ?thesis
      by (simp only: extract_json_def first_fence_content_def if_False)
  qed
qed

lemma extract_json_parsed: "extract_json (strip out) = Inr (parsed_text out)"
  by (simp add: extract_json_cases parsed_text_def Let_def)

lemma parsed_text_clean: "\<not> contains fence (parsed_text out)"
  by (simp add: parsed_text_def first_fence_content_def Let_def before_first_clean fence_nonempty)

lemma main_started:
  assumes "api_key \<noteq> []" and "topic \<noteq> []" and "kickoff ext topic api_key = Inr out"
  shows "main ext w True topic api_key
     = (case json_loads ext (parsed_text out) of
          Inl e \<Rightarrow> on_exception ext (started topic api_key @ [JsonLoads (parsed_text out)])
                     (with_key w api_key) e
        | Inr data \<Rightarrow> display ext (started topic api_key @ [JsonLoads (parsed_text out)])
                       (with_key w api_key) topic data)"
  using assms
  by (simp add: main_def Let_def extract_json_parsed started_def with_key_def split: sum.splits)

section \<open>The claims\<close>

text \<open>
  C1. For every list of words and every threshold, the loop of the renderer emits exactly
  the lines of the specification's procedure. The words of the lines, in order, are the
  words of the summary; every line but the last is a buffer whose joined length is over
  the threshold and was not before its last word was appended; the last line is the
  buffer left over. The page of a well-typed record shows these lines for the threshold
  80. With the threshold 3, \<open>A B C D E F\<close> gives \<open>A B C\<close>, \<open>D E F\<close> and an
  empty line.
\<close>

theorem wrap_follows_procedure:
  "wrap_words thr ws = spec_wrap thr [] ws
   \<and> wrap_words thr ws = map (join (py '' '')) (wrap_groups thr [] ws)
   \<and> concat (wrap_groups thr [] ws) = ws
   \<and> list_all (\<lambda>g. thr < length (join (py '' '') g) \<and> length (join (py '' '') (butlast g)) \<le> thr)
        (butlast (wrap_groups thr [] ws))
   \<and> length (join (py '' '') (last (wrap_groups thr [] ws))) \<le> thr
   \<and> (well_typed items \<longrightarrow>
        (\<exists>doc. page repr (JObj items) = Inr doc
           \<and> drawn_lines doc = spec_wrap threshold [] (split_ws (summary_of items))))
   \<and> threshold = 80
   \<and> wrap_words 3 (split_ws (py ''A B C D E F'')) = [py ''A B C'', py ''D E F'', []]"
proof -
  have lines: "wrap_words thr ws = spec_wrap thr [] ws"
    by (rule wrap_words_spec_wrap)
  have groups: "wrap_words thr ws = map (join (py '' '')) (wrap_groups thr [] ws)"
    by (simp add: wrap_words_spec_wrap spec_wrap_groups)
  have all_words: "concat (wrap_groups thr [] ws) = ws"
    by (simp add: concat_wrap_groups)
  have "length (join (py '' '') ([]::pystr list)) \<le> thr"
    by simp
  from wrap_groups_breaks [OF this, of ws]
  have breaks: "list_all (\<lambda>g. thr < length (join (py '' '') g)
          \<and> length (join (py '' '') (butlast g)) \<le> thr) (butlast (wrap_groups thr [] ws))"
    and rest: "length (join (py '' '') (last (wrap_groups thr [] ws))) \<le> thr"
    by (simp_all add: list_all_iff)
  have rendered: "well_typed items \<longrightarrow>
        (\<exists>doc. page repr (JObj items) = Inr doc
           \<and> drawn_lines doc = spec_wrap threshold [] (split_ws (summary_of items)))"
    by (simp add: page_well_typed page_of_drawn_lines wrap_words_spec_wrap)
  have example: "wrap_words 3 (split_ws (py ''A B C D E F'')) = [py ''A B C'', py ''D E F'', []]"
    by (simp add: wrap_words_spec_wrap split_ws_def py_def is_space_def)
  from lines groups all_words breaks rest rendered example show ?thesis
    by (simp only: threshold_def simp_thms)
qed

theorem wrap_follows_procedure_witness:
  "well_typed [(py ''summary'', JStr (py ''A B C D E F''))]
   \<and> (\<exists>doc. page (\<lambda>v. []) (JObj [(py ''summary'', JStr (py ''A B C D E F''))]) = Inr doc
         \<and> drawn_lines doc = [py ''A B C D E F''])
   \<and> wrap_groups 3 [] (split_ws (py ''A B C D E F''))
        = [[py ''A'', py ''B'', py ''C''], [py ''D'', py ''E'', py ''F''], []]
   \<and> wrap_words 3 (split_ws (py ''A B C D E F'')) = [py ''A B C'', py ''D E F'', []]"
proof -
  have wt: "well_typed [(py ''summary'', JStr (py ''A B C D E F''))]"
    by (simp add: well_typed_def py_def)
  have s: "summary_of [(py ''summary'', JStr (py ''A B C D E F''))] = py ''A B C D E F''"
    by (simp add: summary_of_def py_def)
  have l: "spec_wrap threshold [] (split_ws (py ''A B C D E F'')) = [py ''A B C D E F'']"
    by (simp add: threshold_def split_ws_def py_def is_space_def)
  have g: "wrap_groups 3 [] (split_ws (py ''A B C D E F''))
        = [[py ''A'', py ''B'', py ''C''], [py ''D'', py ''E'', py ''F''], []]"
    by (simp add: split_ws_def py_def is_space_def)
  note inst = wrap_follows_procedure
    [of 3 "split_ws (py ''A B C D E F'')" "[(py ''summary'', JStr (py ''A B C D E F''))]" "\<lambda>v. []"]
  from inst wt have "\<exists>doc. page (\<lambda>v. []) (JObj [(py ''summary'', JStr (py ''A B C D E F''))]) = Inr doc
      \<and> drawn_lines doc = spec_wrap threshold [] (split_ws (summary_of [(py ''summary'', JStr (py ''A B C D E F''))]))"
    by blast
  then have r: "\<exists>doc. page (\<lambda>v. []) (JObj [(py ''summary'', JStr (py ''A B C D E F''))]) = Inr doc
      \<and> drawn_lines doc = [py ''A B C D E F'']"
    by (simp only: s l)
  from inst have e: "wrap_words 3 (split_ws (py ''A B C D E F'')) = [py ''A B C'', py ''D E F'', []]"
    by blast
  from wt r g e show ?thesis
    by blast
qed

text \<open>
  C6. Joining the lines of a wrapped summary with a separator of whitespace (a line
  break, say) gives a text with the same words, so wrapping it again with the same
  threshold gives the same lines.
\<close>

theorem rewrap_idempotent:
  assumes "list_all is_space sep" and "sep \<noteq> []"
  shows "split_ws (join sep (wrap_words thr (split_ws s))) = split_ws s
    \<and> wrap_words thr (split_ws (join sep (wrap_words thr (split_ws s))))
        = wrap_words thr (split_ws s)"
  using split_rejoined [where ws = "split_ws s" and thr = thr, OF split_ws_good assms] by simp

theorem rewrap_idempotent_witness:
  "list_all is_space [10] \<and> [10] \<noteq> ([]::pystr)
   \<and> join [10] (wrap_words 3 (split_ws (py ''A B C D E F''))) = py ''A B C'' @ [10] @ py ''D E F'' @ [10]
   \<and> wrap_words 3 (split_ws (py ''A B C'' @ [10] @ py ''D E F'' @ [10]))
        = wrap_words 3 (split_ws (py ''A B C D E F''))"
proof -
  have sp: "list_all is_space [10]"
    by (simp add: is_space_def)
  have ne: "[10] \<noteq> ([]::pystr)"
    by simp
  have j: "join [10] (wrap_words 3 (split_ws (py ''A B C D E F'')))
      = py ''A B C'' @ [10] @ py ''D E F'' @ [10]"
    by (simp add: wrap_words_spec_wrap split_ws_def py_def is_space_def)
  from rewrap_idempotent [OF sp ne, of 3 "py ''A B C D E F''"] sp j show ?thesis
    by simp
qed




text \<open>
  C3, as the code has it. A record whose \<open>stats\<close> is no list (or has an entry among
  its first three that is no dict) makes the renderer raise, whatever the output path.
  For a well-typed record the renderer fails exactly when the output path cannot be
  written, and the title, the fun fact and the value and label of each entry are drawn
  in string form whatever their type.
\<close>

theorem type_mismatch_counterexample:
  "create_infographic_pdf (\<lambda>v. [])
      \<lparr>files = Map.empty, writable = (\<lambda>p. True), environ = Map.empty\<rparr>
      (JObj [(py ''stats'', JInt 5)]) (py ''infographic.pdf'') = Inl TypeError
   \<and> create_infographic_pdf (\<lambda>v. [])
      \<lparr>files = Map.empty, writable = (\<lambda>p. True), environ = Map.empty\<rparr>
      (JObj [(py ''stats'', JArr [JStr (py ''x'')])]) (py ''infographic.pdf'') = Inl AttributeError
   \<and> create_infographic_pdf (\<lambda>v. [])
      \<lparr>files = Map.empty, writable = (\<lambda>p. True), environ = Map.empty\<rparr>
      (JObj [(py ''summary'', JInt 5)]) (py ''infographic.pdf'') = Inl AttributeError"
  by (simp add: create_infographic_pdf_def page_def py_def stat_box_def)

theorem typed_record_renders:
  assumes "well_typed items"
  shows "create_infographic_pdf repr w (JObj items) filename
       = (if writable w filename
          then Inr (w\<lparr>files := (files w)(filename \<mapsto> page_of repr items)\<rparr>, filename)
          else Inl OSError)
     \<and> hd (centred_strings (page_of repr items))
       = (width / 2, height - 1 * inch,
          py ''Infographic: '' @ py_str repr (field_or items (py ''topic'') (JStr (py ''Unknown Topic''))))
     \<and> last (left_strings (page_of repr items))
       = (0.5 * inch,
          (summary_y - 0.3 * inch)
            - 14 * of_nat (length (wrap_words threshold (split_ws (summary_of items))))
            - 0.5 * inch - 0.3 * inch,
          bullet @ py_str repr (field_or items (py ''fun_fact'') (JStr [])))
     \<and> map (\<lambda>c. snd (snd c)) (tl (centred_strings (page_of repr items)))
       = concat (map (\<lambda>stat.
           [py_str repr (field_or (items_of stat) (py ''value'') (JStr [])),
            py_str repr (field_or (items_of stat) (py ''label'') (JStr []))])
          (take 3 (stats_of items)))"
proof -
  have texts: "map (\<lambda>c. snd (snd c))
       (concat (map (\<lambda>(k, stat). [(f k, a, v stat), (g k, b, l stat)]) (enumerate i xs)))
     = concat (map (\<lambda>stat. [v stat, l stat]) xs)"
    for i and xs :: "json list" and f g :: "nat \<Rightarrow> rat" and a b :: rat
      and v l :: "json \<Rightarrow> pystr"
    by (induction xs arbitrary: i) simp_all
  show ?thesis
    by (simp add: render_well_typed [OF assms] page_of_centred_strings page_of_left_strings texts)
qed

theorem typed_record_renders_witness:
  "well_typed [(py ''topic'', JInt 7), (py ''fun_fact'', JNull)]
   \<and> create_infographic_pdf (\<lambda>v. py ''?'')
        \<lparr>files = Map.empty, writable = (\<lambda>p. True), environ = Map.empty\<rparr>
        (JObj [(py ''topic'', JInt 7), (py ''fun_fact'', JNull)]) (py ''infographic.pdf'')
     = Inr (\<lparr>files = [py ''infographic.pdf'' \<mapsto>
                 page_of (\<lambda>v. py ''?'') [(py ''topic'', JInt 7), (py ''fun_fact'', JNull)]],
              writable = (\<lambda>p. True), environ = Map.empty\<rparr>, py ''infographic.pdf'')
   \<and> hd (centred_strings (page_of (\<lambda>v. py ''?'') [(py ''topic'', JInt 7), (py ''fun_fact'', JNull)]))
     = (width / 2, height - 1 * inch, py ''Infographic: ?'')"
proof -
  have wt: "well_typed [(py ''topic'', JInt 7), (py ''fun_fact'', JNull)]"
    by (simp add: well_typed_def py_def)
  have f: "field_or [(py ''topic'', JInt 7), (py ''fun_fact'', JNull)] (py ''topic'')
      (JStr (py ''Unknown Topic'')) = JInt 7"
    by (simp add: field_or_def py_def)
  from typed_record_renders [OF wt, of "\<lambda>v. py ''?''"
      "\<lparr>files = Map.empty, writable = (\<lambda>p. True), environ = Map.empty\<rparr>" "py ''infographic.pdf''"]
    wt f
  show ?thesis
    by (simp add: py_def)
qed

text \<open>
  C5. For every well-typed record (any field may be missing, and a present summary may
  be the empty string, present stats the empty list) and every writable output path the
  renderer returns and the document is at the path. A missing topic is drawn as
  \<open>Infographic: Unknown Topic\<close>, a missing summary as the one line
  \<open>No summary available.\<close>, a missing fun fact as the bare bullet, and missing stats
  as no box. The record with no field at all is such a record.
\<close>

theorem missing_fields_render:
  assumes "well_typed items" and "writable w filename"
  shows "\<exists>doc. create_infographic_pdf repr w (JObj items) filename
          = Inr (w\<lparr>files := (files w)(filename \<mapsto> doc)\<rparr>, filename)
     \<and> (map_of items (py ''topic'') = None \<longrightarrow>
          hd (centred_strings doc) = (width / 2, height - 1 * inch, py ''Infographic: Unknown Topic''))
     \<and> (map_of items (py ''summary'') = None \<longrightarrow>
          drawn_lines doc = [py ''No summary available.''])
     \<and> (map_of items (py ''fun_fact'') = None \<longrightarrow> snd (snd (last (left_strings doc))) = bullet)
     \<and> (map_of items (py ''stats'') = None \<longrightarrow> round_rects doc = [])"
proof -
  have r: "create_infographic_pdf repr w (JObj items) filename
      = Inr (w\<lparr>files := (files w)(filename \<mapsto> page_of repr items)\<rparr>, filename)"
    using assms by (simp add: render_well_typed)
  have t: "map_of items (py ''topic'') = None \<longrightarrow>
      hd (centred_strings (page_of repr items))
        = (width / 2, height - 1 * inch, py ''Infographic: Unknown Topic'')"
    by (simp add: page_of_centred_strings field_or_def py_def)
  have s: "map_of items (py ''summary'') = None \<longrightarrow>
      drawn_lines (page_of repr items) = [py ''No summary available.'']"
    by (simp add: page_of_drawn_lines summary_of_def wrap_placeholder)
  have f: "map_of items (py ''fun_fact'') = None \<longrightarrow>
      snd (snd (last (left_strings (page_of repr items)))) = bullet"
    by (simp add: page_of_left_strings field_or_def)
  have b: "map_of items (py ''stats'') = None \<longrightarrow> round_rects (page_of repr items) = []"
    by (simp add: page_of_round_rects stats_of_def)
  show ?thesis
  proof (rule exI [of _ "page_of repr items"], intro conjI)
    show "create_infographic_pdf repr w (JObj items) filename
      = Inr (w\<lparr>files := (files w)(filename \<mapsto> page_of repr items)\<rparr>, filename)"
      by (rule r)
  qed (rule t s f b)+
qed

theorem missing_fields_render_witness:
  "well_typed [] \<and> writable \<lparr>files = Map.empty, writable = (\<lambda>p. True), environ = Map.empty\<rparr> (py ''infographic.pdf'')
   \<and> (\<exists>doc. create_infographic_pdf (\<lambda>v. [])
          \<lparr>files = Map.empty, writable = (\<lambda>p. True), environ = Map.empty\<rparr> (JObj []) (py ''infographic.pdf'')
          = Inr (\<lparr>files = [py ''infographic.pdf'' \<mapsto> doc], writable = (\<lambda>p. True), environ = Map.empty\<rparr>,
                 py ''infographic.pdf'')
        \<and> hd (centred_strings doc) = (width / 2, height - 1 * inch, py ''Infographic: Unknown Topic'')
        \<and> drawn_lines doc = [py ''No summary available.'']
        \<and> snd (snd (last (left_strings doc))) = bullet
        \<and> round_rects doc = [])"
proof -
  have wt: "well_typed []"
    by (simp add: well_typed_def)
  have wr: "writable \<lparr>files = Map.empty, writable = (\<lambda>p. True), environ = Map.empty\<rparr> (py ''infographic.pdf'')"
    by simp
  from missing_fields_render [OF wt wr, of "\<lambda>v. []"] wt wr show ?thesis
    by simp
qed

text \<open>
  C10, as the code has it. The record with no summary shows one line, and it is the
  placeholder, not an empty line. What holds: the last flush is unconditional, so the
  wrap always gives at least one line; no words give exactly one empty line, and so
  does a record whose summary is empty or blank. When the test of line 99 succeeds at
  the last word, the lines are those flushed before, the line flushed by the last word,
  and an empty line behind it. Every line, this empty one too, moves the cursor down by
  14 points, and \<open>Did You Know?\<close> is drawn half an inch below the cursor.
\<close>

theorem missing_summary_line_counterexample:
  "page (\<lambda>v. []) (JObj []) = Inr (page_of (\<lambda>v. []) [])
   \<and> drawn_lines (page_of (\<lambda>v. []) []) = [py ''No summary available.'']
   \<and> drawn_lines (page_of (\<lambda>v. []) []) \<noteq> [[]]"
proof -
  have wt: "well_typed []"
    by (simp add: well_typed_def)
  have l: "drawn_lines (page_of (\<lambda>v. []) []) = [py ''No summary available.'']"
    by (simp add: page_of_drawn_lines summary_of_def wrap_placeholder)
  have "py ''No summary available.'' \<noteq> []"
    by (simp add: py_def)
  with l page_well_typed [OF wt, of "\<lambda>v. []"] show ?thesis
    by simp
qed

theorem final_flush_unconditional:
  "wrap_words thr ws \<noteq> []
   \<and> wrap_words thr [] = [[]]
   \<and> (last_word_flushes thr ws \<longrightarrow>
        wrap_words thr ws
          = emitted (run_wrap thr (butlast ws))
            @ [join (py '' '') (line (run_wrap thr (butlast ws)) @ [last ws]), []])
   \<and> getY (summary_text_object (ls @ [l])) = getY (summary_text_object ls) - 14
   \<and> (well_typed items \<longrightarrow>
        (\<exists>doc. page repr (JObj items) = Inr doc
           \<and> drawn_lines doc = wrap_words threshold (split_ws (summary_of items))
           \<and> left_strings doc ! 2
               = (0.5 * inch,
                  (summary_y - 0.3 * inch) - 14 * of_nat (length (drawn_lines doc)) - 0.5 * inch,
                  py ''Did You Know?'')
           \<and> (map_of items (py ''summary'') = None \<longrightarrow>
                drawn_lines doc = [py ''No summary available.''])
           \<and> (split_ws (summary_of items) = [] \<longrightarrow> drawn_lines doc = [[]])))"
proof -
  have a: "wrap_words thr ws \<noteq> []"
    by (rule wrap_words_nonempty)
  have b: "wrap_words t [] = [[]]" for t
    by (simp add: wrap_words_def run_wrap_def Let_def)
  have c: "last_word_flushes thr ws \<longrightarrow>
        wrap_words thr ws
          = emitted (run_wrap thr (butlast ws))
            @ [join (py '' '') (line (run_wrap thr (butlast ws)) @ [last ws]), []]"
    using last_word_flush_lines [of thr ws] by (simp add: wrap_words_def Let_def)
  have d: "getY (summary_text_object (ls @ [l])) = getY (summary_text_object ls) - 14"
    by (simp add: summary_text_object_getY)
  have e: "well_typed items \<longrightarrow>
        (\<exists>doc. page repr (JObj items) = Inr doc
           \<and> drawn_lines doc = wrap_words threshold (split_ws (summary_of items))
           \<and> left_strings doc ! 2
               = (0.5 * inch,
                  (summary_y - 0.3 * inch) - 14 * of_nat (length (drawn_lines doc)) - 0.5 * inch,
                  py ''Did You Know?'')
           \<and> (map_of items (py ''summary'') = None \<longrightarrow>
                drawn_lines doc = [py ''No summary available.''])
           \<and> (split_ws (summary_of items) = [] \<longrightarrow> drawn_lines doc = [[]]))"
  proof
    assume wt: "well_typed items"
    have 1: "page repr (JObj items) = Inr (page_of repr items)"
      by (rule page_well_typed [OF wt])
    have 2: "drawn_lines (page_of repr items) = wrap_words threshold (split_ws (summary_of items))"
      by (rule page_of_drawn_lines)
    have 3: "left_strings (page_of repr items) ! 2
               = (0.5 * inch,
                  (summary_y - 0.3 * inch)
                    - 14 * of_nat (length (drawn_lines (page_of repr items))) - 0.5 * inch,
                  py ''Did You Know?'')"
      by (simp add: page_of_left_strings page_of_drawn_lines)
    have 4: "map_of items (py ''summary'') = None \<longrightarrow>
                drawn_lines (page_of repr items) = [py ''No summary available.'']"
      by (simp add: page_of_drawn_lines summary_of_def wrap_placeholder)
    have 5: "split_ws (summary_of items) = [] \<longrightarrow> drawn_lines (page_of repr items) = [[]]"
      by (simp add: page_of_drawn_lines b)
    show "\<exists>doc. page repr (JObj items) = Inr doc
           \<and> drawn_lines doc = wrap_words threshold (split_ws (summary_of items))
           \<and> left_strings doc ! 2
               = (0.5 * inch,
                  (summary_y - 0.3 * inch) - 14 * of_nat (length (drawn_lines doc)) - 0.5 * inch,
                  py ''Did You Know?'')
           \<and> (map_of items (py ''summary'') = None \<longrightarrow>
                drawn_lines doc = [py ''No summary available.''])
           \<and> (split_ws (summary_of items) = [] \<longrightarrow> drawn_lines doc = [[]])"
      by (rule exI [of _ "page_of repr items"], intro conjI) (rule 1 2 3 4 5)+
  qed
  from a b [of thr] c d e show ?thesis
    by (intro conjI)
qed

theorem final_flush_unconditional_witness:
  "last_word_flushes 3 [py ''A'', py ''B'', py ''C'']
   \<and> wrap_words 3 [py ''A'', py ''B'', py ''C''] = [py ''A B C'', []]
   \<and> well_typed [(py ''summary'', JStr [])]
   \<and> (\<exists>doc. page (\<lambda>v. []) (JObj [(py ''summary'', JStr [])]) = Inr doc
         \<and> drawn_lines doc = [[]]
         \<and> left_strings doc ! 2
             = (0.5 * inch, (summary_y - 0.3 * inch) - 14 - 0.5 * inch, py ''Did You Know?''))"
proof -
  have rw: "run_wrap 3 [py ''A'', py ''B''] = \<lparr>line = [py ''A'', py ''B''], emitted = []\<rparr>"
    by (simp add: run_wrap_def wrap_step_def py_def)
  have lw: "last_word_flushes 3 [py ''A'', py ''B'', py ''C'']"
    by (simp add: last_word_flushes_def rw) (simp add: py_def)
  have wt: "well_typed [(py ''summary'', JStr [])]"
    by (simp add: well_typed_def py_def)
  have sm: "split_ws (summary_of [(py ''summary'', JStr [])]) = []"
    by (simp add: summary_of_def split_ws_def py_def)
  note inst = final_flush_unconditional [of 3 "[py ''A'', py ''B'', py ''C'']" "[]" "[]"
      "[(py ''summary'', JStr [])]" "\<lambda>v. []"]
  note flush = inst [THEN conjunct2, THEN conjunct2, THEN conjunct1]
  note rendered = inst [THEN conjunct2, THEN conjunct2, THEN conjunct2, THEN conjunct2]
  from flush lw have w: "wrap_words 3 [py ''A'', py ''B'', py ''C'']
      = emitted (run_wrap 3 (butlast [py ''A'', py ''B'', py ''C'']))
            @ [join (py '' '') (line (run_wrap 3 (butlast [py ''A'', py ''B'', py ''C'']))
                 @ [last [py ''A'', py ''B'', py ''C'']]), []]"
    by (rule mp)
  then have w': "wrap_words 3 [py ''A'', py ''B'', py ''C''] = [py ''A B C'', []]"
    by (simp add: rw) (simp add: py_def)
  from rendered wt have "\<exists>doc. page (\<lambda>v. []) (JObj [(py ''summary'', JStr [])]) = Inr doc
           \<and> drawn_lines doc = wrap_words threshold (split_ws (summary_of [(py ''summary'', JStr [])]))
           \<and> left_strings doc ! 2
               = (0.5 * inch,
                  (summary_y - 0.3 * inch) - 14 * of_nat (length (drawn_lines doc)) - 0.5 * inch,
                  py ''Did You Know?'')
           \<and> (map_of [(py ''summary'', JStr [])] (py ''summary'') = None \<longrightarrow>
                drawn_lines doc = [py ''No summary available.''])
           \<and> (split_ws (summary_of [(py ''summary'', JStr [])]) = [] \<longrightarrow> drawn_lines doc = [[]])"
    by (rule mp)
  then obtain doc where d: "page (\<lambda>v. []) (JObj [(py ''summary'', JStr [])]) = Inr doc"
    and y: "left_strings doc ! 2
               = (0.5 * inch,
                  (summary_y - 0.3 * inch) - 14 * of_nat (length (drawn_lines doc)) - 0.5 * inch,
                  py ''Did You Know?'')"
    and e: "split_ws (summary_of [(py ''summary'', JStr [])]) = [] \<longrightarrow> drawn_lines doc = [[]]"
    by (elim exE conjE)
  from e sm have l: "drawn_lines doc = [[]]"
    by simp
  from y l have y': "left_strings doc ! 2
             = (0.5 * inch, (summary_y - 0.3 * inch) - 14 - 0.5 * inch, py ''Did You Know?'')"
    by simp
  from lw w' wt d l y' show ?thesis
    by (intro conjI exI [of _ doc])
qed

text \<open>
  C4, as the code has it. When an untagged fence pair stands before a block opened by
  the \<open>json\<close> marker, the caller parses the content of the tagged block, not the
  content between the first fence pair. What holds: the extraction never raises, and
  the caller parses, of the stripped text, the content behind the first \<open>json\<close>
  marker up to a closing fence marker (or the end of the text) when there is such a
  marker; else the content between the first pair of fence markers (up to the end of
  the text when the fence is not closed); else the stripped text itself. The parsed
  text holds no fence marker, and it is the one text handed to \<open>json.loads\<close>.
\<close>

theorem json_fence_preferred_counterexample:
  "extract_json (strip (fence @ py ''a'' @ fence @ py '' '' @ fence_json @ py ''{}'' @ fence))
     = Inr (py ''{}'')
   \<and> first_fence_content (strip (fence @ py ''a'' @ fence @ py '' '' @ fence_json @ py ''{}'' @ fence))
     = py ''a''
   \<and> extract_json (strip (fence @ py ''a'' @ fence @ py '' '' @ fence_json @ py ''{}'' @ fence))
     \<noteq> Inr (first_fence_content
              (strip (fence @ py ''a'' @ fence @ py '' '' @ fence_json @ py ''{}'' @ fence)))"
  by (simp add: extract_json_cases first_fence_content_def strip_def fence_def fence_json_def
      py_def is_space_def)

theorem fenced_json_parsed:
  "extract_json (strip out) = Inr (parsed_text out)
   \<and> parsed_text out
       = (if contains fence_json (strip out)
          then before_first fence (before_first fence_json (after_first fence_json (strip out)))
          else if contains fence (strip out)
          then before_first fence (after_first fence (strip out))
          else strip out)
   \<and> (\<not> contains fence_json (strip out) \<longrightarrow> parsed_text out = first_fence_content (strip out))
   \<and> \<not> contains fence (parsed_text out)
   \<and> (api_key \<noteq> [] \<and> topic \<noteq> [] \<and> kickoff ext topic api_key = Inr out \<longrightarrow>
        main ext w True topic api_key
          = (case json_loads ext (parsed_text out) of
               Inl e \<Rightarrow> on_exception ext (started topic api_key @ [JsonLoads (parsed_text out)])
                          (with_key w api_key) e
             | Inr data \<Rightarrow> display ext (started topic api_key @ [JsonLoads (parsed_text out)])
                            (with_key w api_key) topic data))"
proof -
  have a: "extract_json (strip out) = Inr (parsed_text out)"
    by (rule extract_json_parsed)
  have b: "parsed_text out
       = (if contains fence_json (strip out)
          then before_first fence (before_first fence_json (after_first fence_json (strip out)))
          else if contains fence (strip out)
          then before_first fence (after_first fence (strip out))
          else strip out)"
    by (simp add: parsed_text_def first_fence_content_def Let_def)
  have c: "\<not> contains fence_json (strip out) \<longrightarrow> parsed_text out = first_fence_content (strip out)"
    by (simp add: parsed_text_def Let_def)
  have d: "\<not> contains fence (parsed_text out)"
    by (rule parsed_text_clean)
  have e: "api_key \<noteq> [] \<and> topic \<noteq> [] \<and> kickoff ext topic api_key = Inr out \<longrightarrow>
        main ext w True topic api_key
          = (case json_loads ext (parsed_text out) of
               Inl e \<Rightarrow> on_exception ext (started topic api_key @ [JsonLoads (parsed_text out)])
                          (with_key w api_key) e
             | Inr data \<Rightarrow> display ext (started topic api_key @ [JsonLoads (parsed_text out)])
                            (with_key w api_key) topic data)"
    using main_started [of api_key topic ext out w] by (intro impI) (elim conjE)
  from a b c d e show ?thesis
    by (intro conjI)
qed

theorem fenced_json_parsed_witness:
  "parsed_text (py '' x '' @ fence_json @ py ''{}'' @ fence @ py '' y'') = py ''{}''
   \<and> parsed_text (py ''x'' @ fence @ py ''[1]'' @ fence @ py ''y'') = py ''[1]''
   \<and> parsed_text (py '' {} '') = py ''{}''
   \<and> main \<lparr>py_repr = (\<lambda>v. []), exc_str = (\<lambda>e. py ''bad''),
            json_loads = (\<lambda>s. Inl JSONDecodeError),
            kickoff = (\<lambda>t k. Inr (py '' x '' @ fence_json @ py ''{}'' @ fence @ py '' y''))\<rparr>
        \<lparr>files = Map.empty, writable = (\<lambda>p. True), environ = Map.empty\<rparr> True (py ''t'') (py ''k'')
      = (started (py ''t'') (py ''k'') @ [JsonLoads (py ''{}''), StError (py ''Error: bad''), StWarning hint],
         with_key \<lparr>files = Map.empty, writable = (\<lambda>p. True), environ = Map.empty\<rparr> (py ''k''))"
proof -
  let ?out = "py '' x '' @ fence_json @ py ''{}'' @ fence @ py '' y''"
  let ?ext = "\<lparr>py_repr = (\<lambda>v. []), exc_str = (\<lambda>e. py ''bad''),
            json_loads = (\<lambda>s. Inl JSONDecodeError), kickoff = (\<lambda>t k. Inr ?out)\<rparr>"
  let ?w = "\<lparr>files = Map.empty, writable = (\<lambda>p. True), environ = Map.empty\<rparr>"
  have p1: "parsed_text ?out = py ''{}''"
    by (simp add: parsed_text_def first_fence_content_def strip_def fence_def fence_json_def
        py_def is_space_def)
  have p2: "parsed_text (py ''x'' @ fence @ py ''[1]'' @ fence @ py ''y'') = py ''[1]''"
    by (simp add: parsed_text_def first_fence_content_def strip_def fence_def fence_json_def
        py_def is_space_def)
  have p3: "parsed_text (py '' {} '') = py ''{}''"
    by (simp add: parsed_text_def first_fence_content_def strip_def fence_def fence_json_def
        py_def is_space_def)
  have h: "py ''k'' \<noteq> [] \<and> py ''t'' \<noteq> [] \<and> kickoff ?ext (py ''t'') (py ''k'') = Inr ?out"
    by (simp add: py_def)
  note inst = fenced_json_parsed [of ?out "py ''k''" "py ''t''" ?ext ?w]
  note run = inst [THEN conjunct2, THEN conjunct2, THEN conjunct2, THEN conjunct2, THEN mp, OF h]
  have m: "main ?ext ?w True (py ''t'') (py ''k'')
      = (started (py ''t'') (py ''k'') @ [JsonLoads (py ''{}''), StError (py ''Error: bad''), StWarning hint],
         with_key ?w (py ''k''))"
    by (simp add: run p1 on_exception_def) (simp add: py_def)
  from p1 p2 p3 m show ?thesis
    by (intro conjI)
qed

text \<open>
  C7. When the crew returns a text and \<open>json.loads\<close> raises on what was extracted
  from it, the run shows the spinner, then exactly one error (the exception's message)
  and the hint, shows no element of a result, and leaves the files as they were.
\<close>

theorem parse_failure_reported:
  assumes "api_key \<noteq> []" and "topic \<noteq> []"
    and "kickoff ext topic api_key = Inr out"
    and "json_loads ext (parsed_text out) = Inl e"
  shows "main ext w True topic api_key
       = (started topic api_key
            @ [JsonLoads (parsed_text out), StError (py ''Error: '' @ exc_str ext e), StWarning hint],
          with_key w api_key)
     \<and> errors_shown (fst (main ext w True topic api_key)) = [py ''Error: '' @ exc_str ext e]
     \<and> filter is_result (fst (main ext w True topic api_key)) = []
     \<and> files (snd (main ext w True topic api_key)) = files w"
proof -
  have m: "main ext w True topic api_key
       = (started topic api_key
            @ [JsonLoads (parsed_text out), StError (py ''Error: '' @ exc_str ext e), StWarning hint],
          with_key w api_key)"
    using assms by (simp add: main_started on_exception_def)
  show ?thesis
    by (simp add: m started_def with_key_def)
qed

theorem parse_failure_reported_witness:
  "main \<lparr>py_repr = (\<lambda>v. []), exc_str = (\<lambda>e. py ''bad''),
          json_loads = (\<lambda>s. Inl JSONDecodeError), kickoff = (\<lambda>t k. Inr (py ''topic: x''))\<rparr>
        \<lparr>files = Map.empty, writable = (\<lambda>p. True), environ = Map.empty\<rparr> True (py ''t'') (py ''k'')
     = (started (py ''t'') (py ''k'')
          @ [JsonLoads (py ''topic: x''), StError (py ''Error: bad''), StWarning hint],
        with_key \<lparr>files = Map.empty, writable = (\<lambda>p. True), environ = Map.empty\<rparr> (py ''k''))
   \<and> files (snd (main \<lparr>py_repr = (\<lambda>v. []), exc_str = (\<lambda>e. py ''bad''),
          json_loads = (\<lambda>s. Inl JSONDecodeError), kickoff = (\<lambda>t k. Inr (py ''topic: x''))\<rparr>
        \<lparr>files = Map.empty, writable = (\<lambda>p. True), environ = Map.empty\<rparr> True (py ''t'') (py ''k'')))
     = Map.empty"
proof -
  let ?ext = "\<lparr>py_repr = (\<lambda>v. []), exc_str = (\<lambda>e. py ''bad''),
          json_loads = (\<lambda>s. Inl JSONDecodeError), kickoff = (\<lambda>t k. Inr (py ''topic: x''))\<rparr>"
  let ?w = "\<lparr>files = Map.empty, writable = (\<lambda>p. True), environ = Map.empty\<rparr>"
  have k: "py ''k'' \<noteq> []" and t: "py ''t'' \<noteq> []"
    by (simp_all add: py_def)
  have c: "kickoff ?ext (py ''t'') (py ''k'') = Inr (py ''topic: x'')"
    by simp
  have p: "parsed_text (py ''topic: x'') = py ''topic: x''"
    by (simp add: parsed_text_def first_fence_content_def strip_def fence_def fence_json_def
        py_def is_space_def)
  have j: "json_loads ?ext (parsed_text (py ''topic: x'')) = Inl JSONDecodeError"
    by simp
  note inst = parse_failure_reported [OF k t c j, of ?w]
  from inst [THEN conjunct1]
  have m: "main ?ext ?w True (py ''t'') (py ''k'')
     = (started (py ''t'') (py ''k'')
          @ [JsonLoads (py ''topic: x''), StError (py ''Error: bad''), StWarning hint],
        with_key ?w (py ''k''))"
    by (simp add: p) (simp add: py_def)
  from inst [THEN conjunct2, THEN conjunct2, THEN conjunct2]
  have f: "files (snd (main ?ext ?w True (py ''t'') (py ''k''))) = Map.empty"
    by simp
  from m f show ?thesis
    by (intro conjI)
qed

text \<open>
  C9. With an empty key the run shows the one error and does nothing else, whatever the
  topic (the empty topic included: the key is checked first); with a key and an empty
  topic it shows the one warning and does nothing else. In both cases the world is
  unchanged, no crew is started and nothing is parsed: the run is the same whatever
  the crew and \<open>json.loads\<close> would do.
\<close>

theorem guards_before_work:
  "main ext w True topic [] = ([StError (py ''Please enter your API Key.'')], w)
   \<and> (api_key \<noteq> [] \<longrightarrow>
        main ext w True [] api_key = ([StWarning (py ''Please enter a topic.'')], w))
   \<and> main ext' w True topic [] = main ext w True topic []
   \<and> (api_key \<noteq> [] \<longrightarrow> main ext' w True [] api_key = main ext w True [] api_key)"
  by (simp add: main_def)

theorem guards_before_work_witness:
  "py ''k'' \<noteq> []
   \<and> main \<lparr>py_repr = (\<lambda>v. []), exc_str = (\<lambda>e. []), json_loads = (\<lambda>s. Inr JNull),
            kickoff = (\<lambda>t k. Inr [])\<rparr>
        \<lparr>files = Map.empty, writable = (\<lambda>p. True), environ = Map.empty\<rparr> True [] (py ''k'')
      = ([StWarning (py ''Please enter a topic.'')],
         \<lparr>files = Map.empty, writable = (\<lambda>p. True), environ = Map.empty\<rparr>)
   \<and> main \<lparr>py_repr = (\<lambda>v. []), exc_str = (\<lambda>e. []), json_loads = (\<lambda>s. Inr JNull),
            kickoff = (\<lambda>t k. Inr [])\<rparr>
        \<lparr>files = Map.empty, writable = (\<lambda>p. True), environ = Map.empty\<rparr> True [] []
      = ([StError (py ''Please enter your API Key.'')],
         \<lparr>files = Map.empty, writable = (\<lambda>p. True), environ = Map.empty\<rparr>)"
proof -
  have k: "py ''k'' \<noteq> []"
    by (simp add: py_def)
  note inst = guards_before_work [of
      "\<lparr>py_repr = (\<lambda>v. []), exc_str = (\<lambda>e. []), json_loads = (\<lambda>s. Inr JNull),
        kickoff = (\<lambda>t k. Inr [])\<rparr>"
      "\<lparr>files = Map.empty, writable = (\<lambda>p. True), environ = Map.empty\<rparr>" "[]" "py ''k''"]
  from inst [THEN conjunct1] inst [THEN conjunct2, THEN conjunct1, THEN mp, OF k] k
  show ?thesis
    by (intro conjI)
qed

end
